theory Spec2Isabelle
  imports Main "HOL-Library.Word"
begin

unbundle bit_operations_syntax

section \<open>Data model of src/widget.c\<close>

text \<open>
  The C enumerations become datatypes. \<open>pattern_type\<close> keeps the order of the source:
  the sentinel \<open>PATTERN_UNKNOWN\<close> (value -1) first, then the five patterns from lowest
  to highest priority (values 0 to 4).
\<close>

datatype color = COLOR_OFF | COLOR_ON

datatype pattern_type =
    PATTERN_UNKNOWN
  | PATTERN_BATT_30
  | PATTERN_BATT_20
  | PATTERN_BATT_10
  | PATTERN_ADVERTISING
  | PATTERN_CONNECTED

text \<open>The integer value the C compiler gives each enumerator.\<close>

fun pattern_value :: "pattern_type \<Rightarrow> int" where
  "pattern_value PATTERN_UNKNOWN = -1"
| "pattern_value PATTERN_BATT_30 = 0"
| "pattern_value PATTERN_BATT_20 = 1"
| "pattern_value PATTERN_BATT_10 = 2"
| "pattern_value PATTERN_ADVERTISING = 3"
| "pattern_value PATTERN_CONNECTED = 4"

text \<open>\<open>struct pattern\<close>: \<open>uint8_t times; uint16_t duration_ms; uint16_t sleep_ms\<close>.\<close>

record pattern =
  times_cnt :: "8 word"
  duration_ms :: "16 word"
  sleep_ms :: "16 word"

text \<open>
  The Kconfig constants \<open>CONFIG_LED_WIDGET_*\<close> are not defined in the source file; they
  are parameters of the model. Each one is stored in, or passed as, a \<open>uint16_t\<close>.
\<close>

record config =
  CONFIG_LED_WIDGET_BATTERY_BLINK_MS :: "16 word"
  CONFIG_LED_WIDGET_BATTERY_BLINK_SLEEP_MS :: "16 word"
  CONFIG_LED_WIDGET_CONN_ADVERTISING_MS :: "16 word"
  CONFIG_LED_WIDGET_CONN_CONNECTED_MS :: "16 word"
  CONFIG_LED_WIDGET_INTERVAL_MS :: "16 word"

text \<open>The table \<open>PATTERNS[]\<close>, indexed by the value of the pattern.\<close>

definition PATTERNS :: "config \<Rightarrow> pattern list" where
  "PATTERNS cfg =
    [ \<lparr>times_cnt = 3, duration_ms = CONFIG_LED_WIDGET_BATTERY_BLINK_MS cfg,
        sleep_ms = CONFIG_LED_WIDGET_BATTERY_BLINK_SLEEP_MS cfg\<rparr>,
      \<lparr>times_cnt = 2, duration_ms = CONFIG_LED_WIDGET_BATTERY_BLINK_MS cfg,
        sleep_ms = CONFIG_LED_WIDGET_BATTERY_BLINK_SLEEP_MS cfg\<rparr>,
      \<lparr>times_cnt = 1, duration_ms = CONFIG_LED_WIDGET_BATTERY_BLINK_MS cfg,
        sleep_ms = CONFIG_LED_WIDGET_BATTERY_BLINK_SLEEP_MS cfg\<rparr>,
      \<lparr>times_cnt = 1, duration_ms = CONFIG_LED_WIDGET_CONN_ADVERTISING_MS cfg,
        sleep_ms = 0\<rparr>,
      \<lparr>times_cnt = 1, duration_ms = CONFIG_LED_WIDGET_CONN_CONNECTED_MS cfg,
        sleep_ms = 0\<rparr> ]"

text \<open>
  \<open>struct message_item\<close> is a tagged union: \<open>type\<close> selects between the colour and the
  pair \<open>pattern_off\<close>, \<open>pattern_on\<close>.
\<close>

datatype message_item =
    MESSAGE_COLOR_SET color
  | MESSAGE_PATTERN_SWAP pattern_type pattern_type

text \<open>
  What the LED thread does to the outside world, in order: the driver calls \<open>led_on\<close> and
  \<open>led_off\<close> and the calls of \<open>k_sleep\<close> made by \<open>set_led\<close>.
\<close>

datatype led_event = Led_on | Led_off | Sleep "16 word"

text \<open>The two \<open>LOG_WRN\<close> calls of the file.\<close>

datatype warning = Invalid_pattern_index "8 word" | Unknown_message_type

text \<open>
  The global variables of the file, the message queue \<open>led_msgq\<close>, the delayable work
  item \<open>indicate_connectivity_work\<close> (whether a run of it is pending) and the two
  records of effects.
\<close>

record widget =
  initialized :: bool
  led_current_color :: color
  led_msgq :: "message_item list"
  usb_current_powered :: bool
  current_connectivity_pattern :: pattern_type
  indicate_connectivity_work :: bool
  current_battery_pattern :: pattern_type
  led_default_color :: color
  led_current_patterns :: "8 word"
  led_trace :: "led_event list"
  warnings :: "warning list"

text \<open>The initial values of the globals.\<close>

definition boot :: widget where
  "boot =
    \<lparr>initialized = False, led_current_color = COLOR_OFF, led_msgq = [],
     usb_current_powered = False, current_connectivity_pattern = PATTERN_UNKNOWN,
     indicate_connectivity_work = False, current_battery_pattern = PATTERN_UNKNOWN,
     led_default_color = COLOR_OFF, led_current_patterns = 0, led_trace = [],
     warnings = []\<rparr>"

section \<open>The LED primitive\<close>

text \<open>
  \<open>set_led\<close>: the driver is called only when the colour changes; the thread then sleeps
  if the duration is not zero.
\<close>

definition set_led :: "color \<Rightarrow> 16 word \<Rightarrow> widget \<Rightarrow> widget" where
  "set_led c duration st =
    (let st1 =
       (if led_current_color st \<noteq> c
        then st\<lparr>led_trace := led_trace st @ [if c = COLOR_ON then Led_on else Led_off],
                led_current_color := c\<rparr>
        else st)
     in if 0 < duration then st1\<lparr>led_trace := led_trace st1 @ [Sleep duration]\<rparr> else st1)"

section \<open>The message queue\<close>

text \<open>
  Modelled from the spec: the kernel queue behind \<open>K_MSGQ_DEFINE\<close>, \<open>k_msgq_put\<close> and
  \<open>k_msgq_get\<close> belongs to Zephyr and is not in the source file. The file declares
  \<open>K_MSGQ_DEFINE(led_msgq, sizeof(struct message_item), 16, 1)\<close>: a bounded first-in
  first-out queue of at most 16 messages. \<open>k_msgq_put\<close> with \<open>K_NO_WAIT\<close> appends the
  message, or drops it when the queue is full. \<open>k_msgq_get\<close> removes the oldest message
  and writes it to the caller's buffer; on an empty queue it waits with \<open>K_FOREVER\<close> (no
  result: \<open>None\<close>) and returns at once with \<open>K_NO_WAIT\<close>, leaving the buffer as it was.
\<close>

definition k_msgq_put :: "message_item \<Rightarrow> message_item list \<Rightarrow> message_item list" where
  "k_msgq_put msg q = (if length q < 16 then q @ [msg] else q)"

datatype timeout = K_FOREVER | K_NO_WAIT

text \<open>
  The buffer \<open>struct message_item msg\<close> of the thread: a message, or bytes whose \<open>type\<close>
  field is neither of the two message types.
\<close>

datatype msg_buffer = Msg message_item | Msg_other

fun k_msgq_get ::
  "message_item list \<Rightarrow> msg_buffer \<Rightarrow> timeout \<Rightarrow> (msg_buffer \<times> message_item list) option"
where
  "k_msgq_get (m # q) buf t = Some (Msg m, q)"
| "k_msgq_get [] buf K_NO_WAIT = Some (buf, [])"
| "k_msgq_get [] buf K_FOREVER = None"

section \<open>The event adapters\<close>

text \<open>
  \<open>indicate_usb_powered\<close>; the argument \<open>powered\<close> is the value \<open>zmk_usb_is_powered()\<close>
  returns.
\<close>

definition indicate_usb_powered :: "bool \<Rightarrow> widget \<Rightarrow> widget" where
  "indicate_usb_powered powered st =
    (if usb_current_powered st \<noteq> powered
     then st\<lparr>led_msgq :=
                k_msgq_put (MESSAGE_COLOR_SET (if powered then COLOR_ON else COLOR_OFF))
                  (led_msgq st),
             usb_current_powered := powered\<rparr>
     else st)"

definition led_charge_listener_cb :: "bool \<Rightarrow> widget \<Rightarrow> widget" where
  "led_charge_listener_cb powered st =
    (if initialized st then indicate_usb_powered powered st else st)"

text \<open>
  The build options that select the branches of \<open>indicate_connectivity_internal\<close> and the
  battery code, and the answers of the ZMK queries the function makes.
\<close>

record build =
  CONFIG_ZMK_SPLIT :: bool
  CONFIG_ZMK_SPLIT_ROLE_CENTRAL :: bool
  CONFIG_ZMK_BLE :: bool
  CONFIG_ZMK_SPLIT_BLE :: bool
  CONFIG_ZMK_BATTERY_REPORTING :: bool

record connectivity =
  zmk_ble_active_profile_is_connected :: bool
  zmk_ble_active_profile_is_open :: bool
  zmk_split_bt_peripheral_is_connected :: bool

text \<open>
  The first half of \<open>indicate_connectivity_internal\<close>: the value given to
  \<open>next_connectivity_pattern\<close>. Both cases of the switch on the transport run the same
  code. \<open>None\<close>: the build compiles no assignment and the variable stays uninitialised.
\<close>

definition next_connectivity_pattern :: "build \<Rightarrow> connectivity \<Rightarrow> pattern_type option" where
  "next_connectivity_pattern b e =
    (if \<not> CONFIG_ZMK_SPLIT b \<or> CONFIG_ZMK_SPLIT_ROLE_CENTRAL b then
       (if CONFIG_ZMK_BLE b then
          Some (if zmk_ble_active_profile_is_connected e then PATTERN_CONNECTED
                else if zmk_ble_active_profile_is_open e then PATTERN_ADVERTISING
                else PATTERN_UNKNOWN)
        else None)
     else if CONFIG_ZMK_SPLIT_BLE b then
       Some (if zmk_split_bt_peripheral_is_connected e then PATTERN_CONNECTED
             else PATTERN_UNKNOWN)
     else None)"

text \<open>The second half (lines 206 to 220), for the value \<open>next\<close> of the variable.\<close>

definition connectivity_swap :: "pattern_type \<Rightarrow> widget \<Rightarrow> widget" where
  "connectivity_swap next st =
    (if current_connectivity_pattern st \<noteq> next then
       (let q1 = k_msgq_put (MESSAGE_PATTERN_SWAP (current_connectivity_pattern st) next)
                   (led_msgq st)
        in if next = PATTERN_CONNECTED
           then st\<lparr>led_msgq := k_msgq_put (MESSAGE_PATTERN_SWAP next PATTERN_UNKNOWN) q1,
                   current_connectivity_pattern := PATTERN_UNKNOWN\<rparr>
           else st\<lparr>led_msgq := q1, current_connectivity_pattern := next\<rparr>)
     else st)"

definition indicate_connectivity_internal :: "build \<Rightarrow> connectivity \<Rightarrow> widget \<Rightarrow> widget option"
where
  "indicate_connectivity_internal b e st =
    (case next_connectivity_pattern b e of
       None \<Rightarrow> None
     | Some next \<Rightarrow> Some (connectivity_swap next st))"

text \<open>
  The debouncer: \<open>indicate_connectivity\<close> (re)schedules the one work item, and the work
  item, when it runs, calls \<open>indicate_connectivity_internal\<close>. The delay of 16 ms is not
  part of the model.
\<close>

definition indicate_connectivity :: "widget \<Rightarrow> widget" where
  "indicate_connectivity st = st\<lparr>indicate_connectivity_work := True\<rparr>"

definition indicate_connectivity_cb :: "build \<Rightarrow> connectivity \<Rightarrow> widget \<Rightarrow> widget option" where
  "indicate_connectivity_cb b e st =
    indicate_connectivity_internal b e (st\<lparr>indicate_connectivity_work := False\<rparr>)"

definition led_output_listener_cb :: "widget \<Rightarrow> widget" where
  "led_output_listener_cb st = (if initialized st then indicate_connectivity st else st)"

text \<open>\<open>set_battery_level\<close>, with its early return on level 0.\<close>

definition set_battery_level :: "8 word \<Rightarrow> widget \<Rightarrow> widget" where
  "set_battery_level battery_level st =
    (if battery_level = 0 then st
     else
       (let next_battery_pattern =
          (if battery_level \<le> 10 then PATTERN_BATT_10
           else if battery_level \<le> 20 then PATTERN_BATT_20
           else if battery_level \<le> 30 then PATTERN_BATT_30
           else PATTERN_UNKNOWN)
        in if current_battery_pattern st \<noteq> next_battery_pattern
           then st\<lparr>led_msgq :=
                      k_msgq_put
                        (MESSAGE_PATTERN_SWAP (current_battery_pattern st) next_battery_pattern)
                        (led_msgq st),
                   current_battery_pattern := next_battery_pattern\<rparr>
           else st))"

text \<open>
  \<open>indicate_battery\<close>: \<open>soc k\<close> is the value the \<open>k\<close>-th call of
  \<open>zmk_battery_state_of_charge()\<close> returns (the first call is \<open>soc 0\<close>). The loop reads
  again, at most ten times, while the level is 0.
\<close>

function battery_poll :: "(nat \<Rightarrow> 8 word) \<Rightarrow> 8 word \<Rightarrow> nat \<Rightarrow> 8 word" where
  "battery_poll soc battery_level retry =
    (if battery_level = 0 \<and> retry < 10
     then battery_poll soc (soc (retry + 1)) (retry + 1)
     else battery_level)"
  by pat_completeness auto
termination
  by (relation "measure (\<lambda>(soc, level, retry). 10 - retry)") auto

definition indicate_battery :: "(nat \<Rightarrow> 8 word) \<Rightarrow> widget \<Rightarrow> widget" where
  "indicate_battery soc st = set_battery_level (battery_poll soc (soc 0) 0) st"

definition led_battery_listener_cb :: "8 word \<Rightarrow> widget \<Rightarrow> widget" where
  "led_battery_listener_cb state_of_charge st =
    (if initialized st then set_battery_level state_of_charge st else st)"

section \<open>The display engine\<close>

text \<open>
  The loop of \<open>display_pattern\<close>. The comparison \<open>i < p->times - 1\<close> is made on \<open>int\<close>,
  after the integer promotion of both sides.
\<close>

function display_loop :: "pattern \<Rightarrow> 8 word \<Rightarrow> widget \<Rightarrow> widget" where
  "display_loop p i st =
    (if i < times_cnt p then
       (let st1 = set_led (if led_default_color st = COLOR_ON then COLOR_OFF else COLOR_ON)
                    (duration_ms p) st;
            st2 = (if uint i < uint (times_cnt p) - 1
                   then set_led (led_default_color st1) (sleep_ms p) st1
                   else st1)
        in display_loop p (i + 1) st2)
     else st)"
  by pat_completeness auto
termination
proof (relation "measure (\<lambda>(p, i, st). unat (times_cnt p) - unat i)")
  show "wf (measure (\<lambda>(p, i, st). unat (times_cnt p) - unat i))"
    by simp
next
  fix p :: pattern and i :: "8 word" and st x xa :: widget
  assume lt: "i < times_cnt p"
  then have "i \<noteq> - 1"
    by (metis word_order.extremum_strict)
  then have "unat (i + 1) = Suc (unat i)"
    by (metis add.commute add_eq_0_iff2 unatSuc)
  with lt show "((p, i + 1, xa), (p, i, st)) \<in> measure (\<lambda>(p, i, st). unat (times_cnt p) - unat i)"
    by (simp add: word_less_nat_alt)
qed

definition display_pattern :: "config \<Rightarrow> 8 word \<Rightarrow> widget \<Rightarrow> widget" where
  "display_pattern cfg pattern_index st =
    (if length (PATTERNS cfg) \<le> unat pattern_index
     then st\<lparr>warnings := warnings st @ [Invalid_pattern_index pattern_index]\<rparr>
     else
       (let p = PATTERNS cfg ! unat pattern_index;
            st1 = display_loop p 0 st
        in set_led (led_default_color st1) (CONFIG_LED_WIDGET_INTERVAL_MS cfg) st1))"

text \<open>
  The switch of \<open>led_process_thread\<close> on the buffer. \<open>1 << msg.pattern_off\<close> is an
  \<open>int\<close>; the \<open>uint8_t\<close> bitmask is promoted to \<open>int\<close> for the operation and the result
  is truncated to 8 bits when it is stored.
\<close>

definition pattern_mask :: "pattern_type \<Rightarrow> 32 word" where
  "pattern_mask p = push_bit (nat (pattern_value p)) 1"

definition process_message :: "msg_buffer \<Rightarrow> widget \<Rightarrow> widget" where
  "process_message msg st =
    (case msg of
       Msg (MESSAGE_COLOR_SET c) \<Rightarrow> st\<lparr>led_default_color := c\<rparr>
     | Msg (MESSAGE_PATTERN_SWAP pattern_off pattern_on) \<Rightarrow>
         (let cur1 =
            (if pattern_off \<noteq> PATTERN_UNKNOWN
             then ucast (ucast (led_current_patterns st) AND NOT (pattern_mask pattern_off))
             else led_current_patterns st);
              cur2 =
            (if pattern_on \<noteq> PATTERN_UNKNOWN
             then ucast (ucast cur1 OR pattern_mask pattern_on)
             else cur1)
          in st\<lparr>led_current_patterns := cur2\<rparr>)
     | Msg_other \<Rightarrow> st\<lparr>warnings := warnings st @ [Unknown_message_type]\<rparr>)"

text \<open>The search for the highest set bit: \<open>v\<close> starts as the bitmask shifted right once.\<close>

function highest_loop :: "8 word \<Rightarrow> 8 word \<Rightarrow> 8 word" where
  "highest_loop v highest_priority_pattern =
    (if v \<noteq> 0 then highest_loop (drop_bit 1 v) (highest_priority_pattern + 1)
     else highest_priority_pattern)"
  by pat_completeness auto
termination
proof (relation "measure (\<lambda>(v, h). unat v)")
  show "wf (measure (\<lambda>(v, h). unat v))"
    by simp
next
  fix v h :: "8 word"
  assume "v \<noteq> 0"
  then have "0 < unat v"
    by (simp add: unat_gt_0)
  moreover have "unat (drop_bit 1 v) = unat v div 2"
    unfolding unat_drop_bit_eq by (simp add: drop_bit_eq_div)
  ultimately show "((drop_bit 1 v, h + 1), (v, h)) \<in> measure (\<lambda>(v, h). unat v)"
    by simp
qed

definition highest_priority_pattern :: "8 word \<Rightarrow> 8 word" where
  "highest_priority_pattern cur = highest_loop (drop_bit 1 cur) 0"

text \<open>
  The statements of \<open>led_process_thread\<close> before its loop: the work item is
  initialised and the LED is set to the base colour.
\<close>

definition led_process_thread_start :: "widget \<Rightarrow> widget" where
  "led_process_thread_start st =
    set_led (led_default_color st) 0 (st\<lparr>indicate_connectivity_work := False\<rparr>)"

text \<open>
  One iteration of the loop of \<open>led_process_thread\<close>. \<open>buf\<close> is what the buffer \<open>msg\<close>,
  declared without a value at the top of the loop body, holds before \<open>k_msgq_get\<close>; the
  result of \<open>k_msgq_get\<close> is not looked at, so the switch reads the buffer whether or not
  a message was received. \<open>None\<close>: the thread waits for a message.
\<close>

definition led_process_iteration :: "config \<Rightarrow> msg_buffer \<Rightarrow> widget \<Rightarrow> widget option" where
  "led_process_iteration cfg buf st =
    (case k_msgq_get (led_msgq st) buf
            (if led_current_patterns st = 0 then K_FOREVER else K_NO_WAIT) of
       None \<Rightarrow> None
     | Some (msg, q) \<Rightarrow>
         (let st1 = process_message msg (st\<lparr>led_msgq := q\<rparr>)
          in if led_current_patterns st1 = 0
             then Some (set_led (led_default_color st1) 0 st1)
             else Some (display_pattern cfg
                          (highest_priority_pattern (led_current_patterns st1)) st1)))"

text \<open>
  \<open>led_init_thread\<close>: the snapshot of power, connectivity (through the debouncer) and
  battery, then the flag.
\<close>

definition led_init_thread :: "build \<Rightarrow> bool \<Rightarrow> (nat \<Rightarrow> 8 word) \<Rightarrow> widget \<Rightarrow> widget" where
  "led_init_thread b powered soc st =
    (let st1 = indicate_usb_powered powered st;
         st2 = indicate_connectivity st1;
         st3 = (if CONFIG_ZMK_BATTERY_REPORTING b then indicate_battery soc st2 else st2)
     in st3\<lparr>initialized := True\<rparr>)"

section \<open>The rendering of a pattern as the specification describes it\<close>

text \<open>
  The specification of the render step, as a list of requests (level, duration) to the
  LED primitive: for \<open>repeat_count\<close> iterations the inverse of the base colour for
  \<open>on_duration_ms\<close>, then, except after the final iteration, the base colour for
  \<open>gap_duration_ms\<close>; after all iterations the base colour for the rest interval.
\<close>

fun inverse_color :: "color \<Rightarrow> color" where
  "inverse_color COLOR_ON = COLOR_OFF"
| "inverse_color COLOR_OFF = COLOR_ON"

definition spec_iteration ::
  "color \<Rightarrow> nat \<Rightarrow> 16 word \<Rightarrow> 16 word \<Rightarrow> nat \<Rightarrow> (color \<times> 16 word) list" where
  "spec_iteration base repeat_count on_duration_ms gap_duration_ms k =
    (inverse_color base, on_duration_ms)
      # (if Suc k < repeat_count then [(base, gap_duration_ms)] else [])"

definition spec_render ::
  "color \<Rightarrow> nat \<Rightarrow> 16 word \<Rightarrow> 16 word \<Rightarrow> 16 word \<Rightarrow> (color \<times> 16 word) list" where
  "spec_render base repeat_count on_duration_ms gap_duration_ms rest_ms =
    concat (map (spec_iteration base repeat_count on_duration_ms gap_duration_ms)
              [0..<repeat_count])
      @ [(base, rest_ms)]"

text \<open>Serving a list of requests with \<open>set_led\<close>, one after the other.\<close>

fun set_led_requests :: "(color \<times> 16 word) list \<Rightarrow> widget \<Rightarrow> widget" where
  "set_led_requests [] st = st"
| "set_led_requests ((c, duration) # rs) st = set_led_requests rs (set_led c duration st)"

section \<open>The battery tiers as the specification describes them\<close>

text \<open>
  The specification of the battery adapter: tier 1 (\<open>PATTERN_BATT_10\<close>) up to 10 percent,
  tier 2 (\<open>PATTERN_BATT_20\<close>) above 10 and up to 20, tier 3 (\<open>PATTERN_BATT_30\<close>) above 20
  and up to 30, none above 30.
\<close>

definition battery_tier :: "nat \<Rightarrow> pattern_type" where
  "battery_tier b =
    (if b \<le> 10 then PATTERN_BATT_10
     else if 10 < b \<and> b \<le> 20 then PATTERN_BATT_20
     else if 20 < b \<and> b \<le> 30 then PATTERN_BATT_30
     else PATTERN_UNKNOWN)"

section \<open>A configuration for the worked examples\<close>

definition example_config :: config where
  "example_config =
    \<lparr>CONFIG_LED_WIDGET_BATTERY_BLINK_MS = 200, CONFIG_LED_WIDGET_BATTERY_BLINK_SLEEP_MS = 200,
     CONFIG_LED_WIDGET_CONN_ADVERTISING_MS = 500, CONFIG_LED_WIDGET_CONN_CONNECTED_MS = 1000,
     CONFIG_LED_WIDGET_INTERVAL_MS = 500\<rparr>"

text \<open>A keyboard that is not split, with BLE and battery reporting.\<close>

definition example_build :: build where
  "example_build =
    \<lparr>CONFIG_ZMK_SPLIT = False, CONFIG_ZMK_SPLIT_ROLE_CENTRAL = False, CONFIG_ZMK_BLE = True,
     CONFIG_ZMK_SPLIT_BLE = False, CONFIG_ZMK_BATTERY_REPORTING = True\<rparr>"

text \<open>The active profile is connected; the active profile is open and not connected.\<close>

definition example_connected :: connectivity where
  "example_connected =
    \<lparr>zmk_ble_active_profile_is_connected = True, zmk_ble_active_profile_is_open = False,
     zmk_split_bt_peripheral_is_connected = False\<rparr>"

definition example_advertising :: connectivity where
  "example_advertising =
    \<lparr>zmk_ble_active_profile_is_connected = False, zmk_ble_active_profile_is_open = True,
     zmk_split_bt_peripheral_is_connected = False\<rparr>"

section \<open>Bit-level facts about the active set\<close>

lemma pattern_value_range:
  "p \<noteq> PATTERN_UNKNOWN \<Longrightarrow> 0 \<le> pattern_value p \<and> pattern_value p \<le> 4"
  by (cases p) simp_all

lemma clear_bit_u8:
  "n < 8 \<Longrightarrow>
   bit (ucast ((ucast (w :: 8 word) :: 32 word) AND NOT (push_bit n 1)) :: 8 word) j
     \<longleftrightarrow> bit w j \<and> j \<noteq> n"
  by (auto simp: bit_simps dest: bit_imp_le_length)

lemma set_bit_u8:
  "n < 8 \<Longrightarrow>
   bit (ucast ((ucast (w :: 8 word) :: 32 word) OR push_bit n 1) :: 8 word) j
     \<longleftrightarrow> bit w j \<or> j = n"
  by (auto simp: bit_simps dest: bit_imp_le_length)

lemma bit_clear_pattern:
  assumes "p \<noteq> PATTERN_UNKNOWN"
  shows "bit (ucast ((ucast (w :: 8 word) :: 32 word) AND NOT (pattern_mask p)) :: 8 word) j
     \<longleftrightarrow> bit w j \<and> int j \<noteq> pattern_value p"
proof -
  from pattern_value_range[OF assms] have "nat (pattern_value p) < 8"
    by linarith
  from clear_bit_u8[OF this, of w j] pattern_value_range[OF assms] show ?thesis
    unfolding pattern_mask_def by auto
qed

lemma bit_set_pattern:
  assumes "p \<noteq> PATTERN_UNKNOWN"
  shows "bit (ucast ((ucast (w :: 8 word) :: 32 word) OR pattern_mask p) :: 8 word) j
     \<longleftrightarrow> bit w j \<or> int j = pattern_value p"
proof -
  from pattern_value_range[OF assms] have "nat (pattern_value p) < 8"
    by linarith
  from set_bit_u8[OF this, of w j] pattern_value_range[OF assms] show ?thesis
    unfolding pattern_mask_def by auto
qed

lemma process_swap_bits:
  "bit (led_current_patterns
         (process_message (Msg (MESSAGE_PATTERN_SWAP pattern_off pattern_on)) st)) j
     \<longleftrightarrow> (pattern_on \<noteq> PATTERN_UNKNOWN \<and> int j = pattern_value pattern_on)
        \<or> (bit (led_current_patterns st) j
            \<and> \<not> (pattern_off \<noteq> PATTERN_UNKNOWN \<and> int j = pattern_value pattern_off))"
  by (auto simp: process_message_def Let_def bit_clear_pattern bit_set_pattern)

lemma word_less_32_bits: "(w :: 8 word) < 32 \<longleftrightarrow> (\<forall>j. bit w j \<longrightarrow> j < 5)"
proof -
  have "w < 2 ^ 5 \<longleftrightarrow> w AND mask 5 = w"
    by (simp add: mask_eq_iff_w2p word_size)
  also have "\<dots> \<longleftrightarrow> (\<forall>j. bit w j \<longrightarrow> j < 5)"
  proof
    assume e: "w AND mask 5 = w"
    show "\<forall>j. bit w j \<longrightarrow> j < 5"
    proof (intro allI impI)
      fix j
      assume "bit w j"
      with e have "bit (w AND mask 5) j"
        by simp
      then show "j < 5"
        by (simp add: bit_simps)
    qed
  next
    assume "\<forall>j. bit w j \<longrightarrow> j < 5"
    then show "w AND mask 5 = w"
      by (intro bit_word_eqI) (auto simp: bit_simps)
  qed
  finally show ?thesis
    by simp
qed

lemma process_message_below_32:
  assumes "led_current_patterns st < 32"
  shows "led_current_patterns (process_message buf st) < 32"
proof (cases buf)
  case (Msg m)
  show ?thesis
  proof (cases m)
    case (MESSAGE_COLOR_SET c)
    with Msg assms show ?thesis
      by (simp add: process_message_def)
  next
    case (MESSAGE_PATTERN_SWAP pattern_off pattern_on)
    have "j < 5" if "bit (led_current_patterns (process_message buf st)) j" for j
    proof -
      from that consider "pattern_on \<noteq> PATTERN_UNKNOWN" "int j = pattern_value pattern_on"
        | "bit (led_current_patterns st) j"
        unfolding Msg MESSAGE_PATTERN_SWAP process_swap_bits by blast
      then show ?thesis
      proof cases
        case 1
        with pattern_value_range[of pattern_on] show ?thesis
          by linarith
      next
        case 2
        with assms show ?thesis
          by (simp add: word_less_32_bits)
      qed
    qed
    then show ?thesis
      by (simp add: word_less_32_bits)
  qed
next
  case Msg_other
  with assms show ?thesis
    by (simp add: process_message_def)
qed

text \<open>
  The invariant of the search loop: \<open>v\<close> is the bitmask shifted right by one more than
  the counter, and the bitmask has a set bit at the counter or above.
\<close>

lemma highest_loop_inv:
  "drop_bit (unat h) cur \<noteq> 0 \<Longrightarrow> v = drop_bit (Suc (unat h)) cur \<Longrightarrow>
   bit cur (unat (highest_loop v h)) \<and> (\<forall>j. bit cur j \<longrightarrow> j \<le> unat (highest_loop v h))"
proof (induction v h rule: highest_loop.induct)
  case (1 v h)
  show ?case
  proof (cases "v = 0")
    case True
    then have hl: "highest_loop v h = h"
      by simp
    from True 1(3) have z: "drop_bit (Suc (unat h)) cur = 0"
      by simp
    have up: "\<not> bit cur j" if "unat h < j" for j
    proof -
      from that obtain k where "j = Suc (unat h) + k"
        by (metis Suc_leI le_Suc_ex)
      moreover have "bit (drop_bit (Suc (unat h)) cur) k = bit cur (Suc (unat h) + k)"
        by (simp only: bit_drop_bit_eq) (simp add: add.commute)
      ultimately show ?thesis
        using z by simp
    qed
    from 1(2) obtain k where k: "bit (drop_bit (unat h) cur) k"
      by (auto simp: bit_eq_iff)
    then have "bit cur (unat h + k)"
      by (simp add: bit_drop_bit_eq add.commute)
    with up have "k = 0"
      by (metis less_add_same_cancel1 not_gr_zero)
    with k have "bit cur (unat h)"
      by (simp add: bit_drop_bit_eq)
    with up hl show ?thesis
      by (metis not_le_imp_less)
  next
    case False
    then have hl: "highest_loop v h = highest_loop (drop_bit 1 v) (h + 1)"
      by simp
    have "unat h < 7"
    proof (rule ccontr)
      assume "\<not> unat h < 7"
      then have "drop_bit (Suc (unat h)) cur = 0"
        by (intro bit_word_eqI) (auto simp: bit_simps dest: bit_imp_le_length)
      with False 1(3) show False
        by simp
    qed
    then have suc: "unat (h + 1) = Suc (unat h)"
      by (simp add: unat_word_ariths)
    have a: "drop_bit (unat (h + 1)) cur \<noteq> 0"
      using False 1(3) suc by simp
    have b: "drop_bit 1 v = drop_bit (Suc (unat (h + 1))) cur"
      using 1(3) suc by (simp add: drop_bit_drop_bit)
    from 1(1)[OF False a b] hl show ?thesis
      by simp
  qed
qed

lemma highest_priority_pattern_bit:
  assumes "cur \<noteq> 0"
  shows "bit cur (unat (highest_priority_pattern cur))"
    and "bit cur j \<Longrightarrow> j \<le> unat (highest_priority_pattern cur)"
proof -
  have "drop_bit (unat (0 :: 8 word)) cur \<noteq> 0"
    using assms by simp
  moreover have "drop_bit 1 cur = drop_bit (Suc (unat (0 :: 8 word))) cur"
    by simp
  ultimately have
    "bit cur (unat (highest_loop (drop_bit 1 cur) 0))
     \<and> (\<forall>j. bit cur j \<longrightarrow> j \<le> unat (highest_loop (drop_bit 1 cur) 0))"
    by (rule highest_loop_inv)
  then show "bit cur (unat (highest_priority_pattern cur))"
    and "bit cur j \<Longrightarrow> j \<le> unat (highest_priority_pattern cur)"
    by (simp_all add: highest_priority_pattern_def)
qed

section \<open>Frame and refinement facts about the render step\<close>

lemma set_led_frame:
  "led_default_color (set_led c d st) = led_default_color st"
  "led_current_patterns (set_led c d st) = led_current_patterns st"
  "warnings (set_led c d st) = warnings st"
  "led_msgq (set_led c d st) = led_msgq st"
  by (simp_all add: set_led_def Let_def)

lemma set_led_requests_append:
  "set_led_requests (xs @ ys) st = set_led_requests ys (set_led_requests xs st)"
  by (induction xs arbitrary: st) auto

lemma set_led_requests_frame:
  "led_default_color (set_led_requests rs st) = led_default_color st"
  "led_current_patterns (set_led_requests rs st) = led_current_patterns st"
  "warnings (set_led_requests rs st) = warnings st"
  "led_msgq (set_led_requests rs st) = led_msgq st"
  by (induction rs arbitrary: st) (auto simp: set_led_frame)

lemma inverse_color_eq: "(if c = COLOR_ON then COLOR_OFF else COLOR_ON) = inverse_color c"
  by (cases c) simp_all

text \<open>
  The loop of \<open>display_pattern\<close>, started at counter \<open>i\<close>, serves the requests of the
  iterations \<open>i\<close> up to \<open>times - 1\<close>.
\<close>

lemma display_loop_requests:
  "display_loop p i st =
     set_led_requests
       (concat (map (spec_iteration (led_default_color st) (unat (times_cnt p))
                       (duration_ms p) (sleep_ms p))
                  [unat i..<unat (times_cnt p)])) st"
proof (induction p i st rule: display_loop.induct)
  case (1 p i st)
  show ?case
  proof (cases "i < times_cnt p")
    case False
    then have "unat (times_cnt p) \<le> unat i"
      by (simp add: word_less_nat_alt)
    with False show ?thesis
      by simp
  next
    case True
    let ?n = "unat (times_cnt p)"
    let ?st1 = "set_led (if led_default_color st = COLOR_ON then COLOR_OFF else COLOR_ON)
                  (duration_ms p) st"
    let ?st2 = "if uint i < uint (times_cnt p) - 1
                then set_led (led_default_color ?st1) (sleep_ms p) ?st1 else ?st1"
    from True have lt: "unat i < ?n"
      by (simp add: word_less_nat_alt)
    have "unat i < 255"
      using lt unsigned_less[of "times_cnt p", where 'a = nat] by simp
    then have suc: "unat (i + 1) = Suc (unat i)"
      by (simp add: unat_word_ariths)
    have "uint i = int (unat i)" and "uint (times_cnt p) = int ?n"
      by (rule uint_nat)+
    then have cond: "uint i < uint (times_cnt p) - 1 \<longleftrightarrow> Suc (unat i) < ?n"
      by linarith
    have base: "led_default_color ?st2 = led_default_color st"
      by (simp add: set_led_frame)
    have unfold: "display_loop p i st = display_loop p (i + 1) ?st2"
      using True by (subst display_loop.simps) (simp add: Let_def)
    have ih: "display_loop p (i + 1) ?st2 =
        set_led_requests
          (concat (map (spec_iteration (led_default_color st) ?n (duration_ms p) (sleep_ms p))
                     [Suc (unat i)..<?n])) ?st2"
      using "1.IH"[OF True refl refl] base suc by simp
    have step: "set_led_requests
          (spec_iteration (led_default_color st) ?n (duration_ms p) (sleep_ms p) (unat i)) st
        = ?st2"
      by (simp add: spec_iteration_def cond inverse_color_eq set_led_frame)
    have "[unat i..<?n] = unat i # [Suc (unat i)..<?n]"
      using lt by (simp add: upt_conv_Cons)
    then show ?thesis
      by (simp only: unfold ih list.map concat.simps set_led_requests_append step)
  qed
qed

lemma length_PATTERNS: "length (PATTERNS cfg) = 5"
  by (simp add: PATTERNS_def)

lemma display_pattern_requests:
  assumes "unat pattern_index < length (PATTERNS cfg)"
    and "p = PATTERNS cfg ! unat pattern_index"
  shows "display_pattern cfg pattern_index st =
           set_led_requests
             (spec_render (led_default_color st) (unat (times_cnt p)) (duration_ms p)
                (sleep_ms p) (CONFIG_LED_WIDGET_INTERVAL_MS cfg)) st"
proof -
  let ?rs = "concat (map (spec_iteration (led_default_color st) (unat (times_cnt p))
                       (duration_ms p) (sleep_ms p)) [0..<unat (times_cnt p)])"
  have loop: "display_loop p 0 st = set_led_requests ?rs st"
    using display_loop_requests[of p 0 st] by simp
  have "display_pattern cfg pattern_index st =
      set_led (led_default_color (display_loop p 0 st)) (CONFIG_LED_WIDGET_INTERVAL_MS cfg)
        (display_loop p 0 st)"
    using assms by (simp add: display_pattern_def Let_def)
  also have "\<dots> = set_led (led_default_color st) (CONFIG_LED_WIDGET_INTERVAL_MS cfg)
      (set_led_requests ?rs st)"
    by (simp only: loop set_led_requests_frame)
  also have "\<dots> =
      set_led_requests (?rs @ [(led_default_color st, CONFIG_LED_WIDGET_INTERVAL_MS cfg)]) st"
    by (simp only: set_led_requests_append set_led_requests.simps)
  finally show ?thesis
    by (simp only: spec_render_def)
qed

lemma display_pattern_frame:
  "led_default_color (display_pattern cfg i st) = led_default_color st"
  "led_current_patterns (display_pattern cfg i st) = led_current_patterns st"
  "led_msgq (display_pattern cfg i st) = led_msgq st"
  "unat i < length (PATTERNS cfg) \<Longrightarrow> warnings (display_pattern cfg i st) = warnings st"
proof -
  consider "unat i < length (PATTERNS cfg)" | "length (PATTERNS cfg) \<le> unat i"
    by linarith
  then have "led_default_color (display_pattern cfg i st) = led_default_color st
    \<and> led_current_patterns (display_pattern cfg i st) = led_current_patterns st
    \<and> led_msgq (display_pattern cfg i st) = led_msgq st"
  proof cases
    case 1
    then show ?thesis
      by (simp add: display_pattern_requests[OF 1 refl] set_led_requests_frame)
  next
    case 2
    then show ?thesis
      by (simp add: display_pattern_def)
  qed
  then show "led_default_color (display_pattern cfg i st) = led_default_color st"
    and "led_current_patterns (display_pattern cfg i st) = led_current_patterns st"
    and "led_msgq (display_pattern cfg i st) = led_msgq st"
    by simp_all
  show "warnings (display_pattern cfg i st) = warnings st" if "unat i < length (PATTERNS cfg)"
    by (simp add: display_pattern_requests[OF that refl] set_led_requests_frame)
qed

lemma highest_priority_pattern_valid:
  assumes "cur < 32" and "cur \<noteq> 0"
  shows "unat (highest_priority_pattern cur) < length (PATTERNS cfg)"
proof -
  from assms(2) have "bit cur (unat (highest_priority_pattern cur))"
    by (rule highest_priority_pattern_bit)
  with assms(1) have "unat (highest_priority_pattern cur) < 5"
    by (simp add: word_less_32_bits)
  then show ?thesis
    by (simp add: length_PATTERNS)
qed

section \<open>Facts about the queue and the adapters\<close>

lemma k_msgq_put_room:
  "length q + 2 \<le> 16 \<Longrightarrow> k_msgq_put m2 (k_msgq_put m1 q) = q @ [m1, m2]"
  by (simp add: k_msgq_put_def)

lemma length_k_msgq_put: "length (k_msgq_put m q) \<le> Suc (length q)"
  by (simp add: k_msgq_put_def)

text \<open>
  When the queue is not empty, an iteration removes and processes its oldest message,
  whatever the buffer held before.
\<close>

lemma led_process_iteration_dequeues:
  assumes "led_msgq st = m # q"
    and "st1 = process_message (Msg m) (st\<lparr>led_msgq := q\<rparr>)"
  shows "led_process_iteration cfg buf st =
           Some (if led_current_patterns st1 = 0 then set_led (led_default_color st1) 0 st1
                 else display_pattern cfg
                        (highest_priority_pattern (led_current_patterns st1)) st1)"
  using assms by (simp add: led_process_iteration_def Let_def)

lemma next_battery_pattern_tier:
  "(if battery_level \<le> 10 then PATTERN_BATT_10
    else if battery_level \<le> 20 then PATTERN_BATT_20
    else if battery_level \<le> 30 then PATTERN_BATT_30
    else PATTERN_UNKNOWN) = battery_tier (unat (battery_level :: 8 word))"
  by (simp add: battery_tier_def word_le_nat_alt)

lemma connectivity_swap_idem:
  "next \<noteq> PATTERN_CONNECTED \<Longrightarrow>
   connectivity_swap next (connectivity_swap next st) = connectivity_swap next st"
  by (simp add: connectivity_swap_def Let_def)

lemma length_connectivity_swap:
  "next \<noteq> PATTERN_CONNECTED \<Longrightarrow>
   length (led_msgq (connectivity_swap next st)) \<le> Suc (length (led_msgq st))"
  by (simp add: connectivity_swap_def Let_def length_k_msgq_put)

section \<open>Priority of the displayed pattern\<close>

text \<open>
  C1. Whenever the active set \<open>led_current_patterns\<close> is not empty after a message has
  been processed, the iteration calls \<open>display_pattern\<close> with the position of the highest
  set bit of the bitmask: that bit is set and no set bit lies above it. The index is
  computed from the bitmask alone, so the order in which the bits were set plays no part.
\<close>

theorem priority_correctness:
  assumes "k_msgq_get (led_msgq st) buf
             (if led_current_patterns st = 0 then K_FOREVER else K_NO_WAIT) = Some (msg, q)"
    and "st1 = process_message msg (st\<lparr>led_msgq := q\<rparr>)"
    and "led_current_patterns st1 \<noteq> 0"
  shows "led_process_iteration cfg buf st
           = Some (display_pattern cfg (highest_priority_pattern (led_current_patterns st1)) st1)
         \<and> bit (led_current_patterns st1)
               (unat (highest_priority_pattern (led_current_patterns st1)))
         \<and> (\<forall>j. bit (led_current_patterns st1) j
                \<longrightarrow> j \<le> unat (highest_priority_pattern (led_current_patterns st1)))"
proof -
  have "led_process_iteration cfg buf st
      = Some (display_pattern cfg (highest_priority_pattern (led_current_patterns st1)) st1)"
    using assms by (simp add: led_process_iteration_def Let_def)
  with highest_priority_pattern_bit[OF assms(3)] show ?thesis
    by blast
qed

text \<open>
  An instance: battery bits 0 and 2 are set, the advertising pattern is switched on, the
  bitmask becomes 13 and pattern 3 (advertising) is displayed.
\<close>

theorem priority_correctness_witness:
  "led_current_patterns
     (process_message (Msg (MESSAGE_PATTERN_SWAP PATTERN_UNKNOWN PATTERN_ADVERTISING))
        (boot\<lparr>led_current_patterns := 5, led_msgq := []\<rparr>)) = 13
   \<and> led_process_iteration example_config Msg_other
        (boot\<lparr>led_current_patterns := 5,
               led_msgq := [MESSAGE_PATTERN_SWAP PATTERN_UNKNOWN PATTERN_ADVERTISING]\<rparr>)
      = Some (display_pattern example_config 3 (boot\<lparr>led_current_patterns := 13\<rparr>))
   \<and> bit (13 :: 8 word) 3"
proof -
  let ?st = "boot\<lparr>led_current_patterns := 5,
                  led_msgq := [MESSAGE_PATTERN_SWAP PATTERN_UNKNOWN PATTERN_ADVERTISING]\<rparr>"
  let ?m = "Msg (MESSAGE_PATTERN_SWAP PATTERN_UNKNOWN PATTERN_ADVERTISING)"
  have p: "process_message ?m (boot\<lparr>led_current_patterns := 5, led_msgq := []\<rparr>)
      = boot\<lparr>led_current_patterns := 13\<rparr>"
    by (simp add: process_message_def boot_def pattern_mask_def)
  have g: "k_msgq_get (led_msgq ?st) Msg_other
             (if led_current_patterns ?st = 0 then K_FOREVER else K_NO_WAIT) = Some (?m, [])"
    by (simp add: boot_def)
  have n: "led_current_patterns (process_message ?m (?st\<lparr>led_msgq := []\<rparr>)) \<noteq> 0"
    by (simp add: p)
  have h: "highest_priority_pattern 13 = 3"
    by (simp add: highest_priority_pattern_def)
  from priority_correctness[OF g refl n, of example_config] show ?thesis
    by (simp add: p h)
qed

section \<open>Applying a message\<close>

text \<open>
  C6. A colour message replaces the base colour \<open>led_default_color\<close> by the colour it
  carries and leaves the active set as it is. A pattern swap leaves the base colour as it
  is and first clears the bit of \<open>pattern_off\<close>, then sets the bit of \<open>pattern_on\<close>, each
  only when the field is not \<open>PATTERN_UNKNOWN\<close>: afterwards a bit is set exactly when it
  is the bit of \<open>pattern_on\<close>, or it was set before and is not the bit of \<open>pattern_off\<close>.
\<close>

theorem process_message_semantics:
  "led_default_color (process_message (Msg (MESSAGE_COLOR_SET c)) st) = c
   \<and> led_current_patterns (process_message (Msg (MESSAGE_COLOR_SET c)) st)
       = led_current_patterns st
   \<and> led_default_color (process_message (Msg (MESSAGE_PATTERN_SWAP pattern_off pattern_on)) st)
       = led_default_color st
   \<and> (\<forall>j. bit (led_current_patterns
                 (process_message (Msg (MESSAGE_PATTERN_SWAP pattern_off pattern_on)) st)) j
         \<longleftrightarrow> (pattern_on \<noteq> PATTERN_UNKNOWN \<and> int j = pattern_value pattern_on)
            \<or> (bit (led_current_patterns st) j
                \<and> \<not> (pattern_off \<noteq> PATTERN_UNKNOWN \<and> int j = pattern_value pattern_off)))"
proof -
  have "led_default_color (process_message (Msg (MESSAGE_COLOR_SET c)) st) = c"
    by (simp add: process_message_def)
  moreover have "led_current_patterns (process_message (Msg (MESSAGE_COLOR_SET c)) st)
      = led_current_patterns st"
    by (simp add: process_message_def)
  moreover have "led_default_color
      (process_message (Msg (MESSAGE_PATTERN_SWAP pattern_off pattern_on)) st)
      = led_default_color st"
    by (simp add: process_message_def Let_def)
  ultimately show ?thesis
    using process_swap_bits by blast
qed

section \<open>Rendering a pattern\<close>

text \<open>
  C7. For every valid pattern index, \<open>display_pattern\<close> serves exactly the requests of
  the specification: \<open>times\<close> iterations that drive the LED to the inverse of the base
  colour for \<open>duration_ms\<close>, each but the last followed by the base colour for
  \<open>sleep_ms\<close>, and at the end the base colour for \<open>CONFIG_LED_WIDGET_INTERVAL_MS\<close>.
\<close>

theorem display_pattern_renders:
  assumes "unat pattern_index < length (PATTERNS cfg)"
    and "p = PATTERNS cfg ! unat pattern_index"
  shows "display_pattern cfg pattern_index st =
           set_led_requests
             (spec_render (led_default_color st) (unat (times_cnt p)) (duration_ms p)
                (sleep_ms p) (CONFIG_LED_WIDGET_INTERVAL_MS cfg)) st"
  using assms by (rule display_pattern_requests)

text \<open>Pattern 0 (three blinks) on the example configuration, base colour off.\<close>

theorem display_pattern_renders_witness:
  "unat (0 :: 8 word) < length (PATTERNS example_config)
   \<and> display_pattern example_config 0 boot =
       set_led_requests
         [(COLOR_ON, 200), (COLOR_OFF, 200), (COLOR_ON, 200), (COLOR_OFF, 200), (COLOR_ON, 200),
          (COLOR_OFF, 500)] boot"
proof -
  have l: "unat (0 :: 8 word) < length (PATTERNS example_config)"
    by (simp add: length_PATTERNS)
  have r: "spec_render COLOR_OFF 3 200 200 500 =
      [(COLOR_ON, 200), (COLOR_OFF, 200), (COLOR_ON, 200), (COLOR_OFF, 200), (COLOR_ON, 200),
       (COLOR_OFF, 500)]"
    by (simp add: spec_render_def spec_iteration_def upt_conv_Cons)
  from display_pattern_renders[OF l refl, of boot] l show ?thesis
    by (simp add: PATTERNS_def example_config_def boot_def r)
qed

text \<open>
  C8. For every pattern index at or beyond the size of the table, \<open>display_pattern\<close>
  only logs the warning: it calls neither the LED driver nor \<open>k_sleep\<close>, every global
  keeps its value, and the function returns to the loop.
\<close>

theorem display_pattern_invalid_index:
  assumes "length (PATTERNS cfg) \<le> unat pattern_index"
  shows "display_pattern cfg pattern_index st
           = st\<lparr>warnings := warnings st @ [Invalid_pattern_index pattern_index]\<rparr>
         \<and> led_trace (display_pattern cfg pattern_index st) = led_trace st
         \<and> led_current_color (display_pattern cfg pattern_index st) = led_current_color st"
  using assms by (simp add: display_pattern_def)

theorem display_pattern_invalid_index_witness:
  "length (PATTERNS example_config) \<le> unat (5 :: 8 word)
   \<and> display_pattern example_config 5 boot = boot\<lparr>warnings := [Invalid_pattern_index 5]\<rparr>
   \<and> led_trace (display_pattern example_config 5 boot) = []"
proof -
  have l: "length (PATTERNS example_config) \<le> unat (5 :: 8 word)"
    by (simp add: length_PATTERNS)
  from display_pattern_invalid_index[OF l, of boot] l show ?thesis
    by (simp add: boot_def)
qed

section \<open>The active set stays within the pattern table\<close>

text \<open>
  C10. The fields of a pattern swap are of type \<open>pattern_type\<close>. If the bitmask is below
  32 before an iteration of the loop, it is below 32 after the message has been processed;
  then, when it is not zero, the index the loop computes is a valid index of \<open>PATTERNS\<close>,
  and the iteration ends without a warning of \<open>display_pattern\<close> and with the same
  bitmask. The bitmask is 0 at boot.
\<close>

theorem active_set_stays_below_32:
  assumes "led_current_patterns st < 32"
    and "k_msgq_get (led_msgq st) buf
           (if led_current_patterns st = 0 then K_FOREVER else K_NO_WAIT) = Some (msg, q)"
    and "st1 = process_message msg (st\<lparr>led_msgq := q\<rparr>)"
  shows "led_current_patterns st1 < 32
         \<and> (led_current_patterns st1 \<noteq> 0 \<longrightarrow>
              unat (highest_priority_pattern (led_current_patterns st1)) < length (PATTERNS cfg))
         \<and> (\<exists>st2. led_process_iteration cfg buf st = Some st2
                \<and> led_current_patterns st2 = led_current_patterns st1
                \<and> warnings st2 = warnings st1)"
proof -
  have b: "led_current_patterns st1 < 32"
    unfolding assms(3) by (rule process_message_below_32) (simp add: assms(1))
  have v: "unat (highest_priority_pattern (led_current_patterns st1)) < length (PATTERNS cfg)"
    if "led_current_patterns st1 \<noteq> 0"
    using b that by (rule highest_priority_pattern_valid)
  define st2 where
    "st2 = (if led_current_patterns st1 = 0 then set_led (led_default_color st1) 0 st1
            else display_pattern cfg (highest_priority_pattern (led_current_patterns st1)) st1)"
  have s: "led_process_iteration cfg buf st = Some st2"
    using assms(2,3) by (simp add: led_process_iteration_def Let_def st2_def)
  have "led_current_patterns st2 = led_current_patterns st1"
    unfolding st2_def by (simp add: set_led_frame display_pattern_frame)
  moreover have "warnings st2 = warnings st1"
    unfolding st2_def using v by (simp add: set_led_frame display_pattern_frame)
  ultimately show ?thesis
    using b v s by blast
qed

text \<open>
  The hypothesis holds at boot; a swap to the connected pattern gives the bitmask 16, whose
  highest bit, 4, is the last index of the table.
\<close>

theorem active_set_stays_below_32_witness:
  "led_current_patterns boot < 32
   \<and> led_current_patterns
       (process_message (Msg (MESSAGE_PATTERN_SWAP PATTERN_UNKNOWN PATTERN_CONNECTED))
          (boot\<lparr>led_msgq := []\<rparr>)) = 16
   \<and> unat (highest_priority_pattern 16) < length (PATTERNS example_config)"
proof -
  let ?m = "MESSAGE_PATTERN_SWAP PATTERN_UNKNOWN PATTERN_CONNECTED"
  let ?st = "boot\<lparr>led_msgq := [?m]\<rparr>"
  have i: "led_current_patterns ?st < 32"
    by (simp add: boot_def)
  have g: "k_msgq_get (led_msgq ?st) Msg_other
             (if led_current_patterns ?st = 0 then K_FOREVER else K_NO_WAIT) = Some (Msg ?m, [])"
    by (simp add: boot_def)
  have p: "led_current_patterns (process_message (Msg ?m) (boot\<lparr>led_msgq := []\<rparr>)) = 16"
    by (simp add: process_message_def boot_def pattern_mask_def)
  from active_set_stays_below_32[OF i g refl, of example_config] show ?thesis
    by (simp add: p) (simp add: boot_def)
qed

section \<open>The connectivity adapter on a connection\<close>

text \<open>
  C3. When the evaluation of the connectivity adapter resolves to \<open>PATTERN_CONNECTED\<close>
  and the last-known pattern differs from it, the adapter makes exactly two calls of
  \<open>k_msgq_put\<close>: first the swap from the last-known pattern to connected, then the swap
  from connected to none; with room for two messages the queue grows by exactly these two,
  in this order. The last-known pattern becomes \<open>PATTERN_UNKNOWN\<close>. Once the engine has
  processed both messages, the bit of the connected pattern is not set.
\<close>

theorem connect_blink_once:
  assumes "next_connectivity_pattern b e = Some PATTERN_CONNECTED"
    and "current_connectivity_pattern st \<noteq> PATTERN_CONNECTED"
    and "m1 = MESSAGE_PATTERN_SWAP (current_connectivity_pattern st) PATTERN_CONNECTED"
    and "m2 = MESSAGE_PATTERN_SWAP PATTERN_CONNECTED PATTERN_UNKNOWN"
  shows "indicate_connectivity_internal b e st =
           Some (st\<lparr>led_msgq := k_msgq_put m2 (k_msgq_put m1 (led_msgq st)),
                    current_connectivity_pattern := PATTERN_UNKNOWN\<rparr>)
         \<and> (length (led_msgq st) + 2 \<le> 16 \<longrightarrow>
               k_msgq_put m2 (k_msgq_put m1 (led_msgq st)) = led_msgq st @ [m1, m2])
         \<and> \<not> bit (led_current_patterns (process_message (Msg m2) (process_message (Msg m1) eng)))
                 (nat (pattern_value PATTERN_CONNECTED))"
proof -
  have "indicate_connectivity_internal b e st =
           Some (st\<lparr>led_msgq := k_msgq_put m2 (k_msgq_put m1 (led_msgq st)),
                    current_connectivity_pattern := PATTERN_UNKNOWN\<rparr>)"
    using assms by (simp add: indicate_connectivity_internal_def connectivity_swap_def Let_def)
  moreover have "\<not> bit (led_current_patterns
        (process_message (Msg m2) (process_message (Msg m1) eng)))
      (nat (pattern_value PATTERN_CONNECTED))"
    unfolding assms(3,4) process_swap_bits by simp
  ultimately show ?thesis
    using k_msgq_put_room by blast
qed

theorem connect_blink_once_witness:
  "next_connectivity_pattern example_build example_connected = Some PATTERN_CONNECTED
   \<and> current_connectivity_pattern boot \<noteq> PATTERN_CONNECTED
   \<and> indicate_connectivity_internal example_build example_connected boot =
       Some (boot\<lparr>led_msgq := [MESSAGE_PATTERN_SWAP PATTERN_UNKNOWN PATTERN_CONNECTED,
                                MESSAGE_PATTERN_SWAP PATTERN_CONNECTED PATTERN_UNKNOWN]\<rparr>)
   \<and> led_current_patterns
       (process_message (Msg (MESSAGE_PATTERN_SWAP PATTERN_CONNECTED PATTERN_UNKNOWN))
          (process_message (Msg (MESSAGE_PATTERN_SWAP PATTERN_UNKNOWN PATTERN_CONNECTED)) boot))
       = 0"
proof -
  have n: "next_connectivity_pattern example_build example_connected = Some PATTERN_CONNECTED"
    by (simp add: next_connectivity_pattern_def example_build_def example_connected_def)
  have c: "current_connectivity_pattern boot \<noteq> PATTERN_CONNECTED"
    by (simp add: boot_def)
  have p: "led_current_patterns
       (process_message (Msg (MESSAGE_PATTERN_SWAP PATTERN_CONNECTED PATTERN_UNKNOWN))
          (process_message (Msg (MESSAGE_PATTERN_SWAP PATTERN_UNKNOWN PATTERN_CONNECTED)) boot))
       = 0"
    by (simp add: process_message_def boot_def pattern_mask_def)
  have b: "current_connectivity_pattern boot = PATTERN_UNKNOWN" "led_msgq boot = []"
    by (simp_all add: boot_def)
  from connect_blink_once[OF n c refl refl, of boot] n c p show ?thesis
    by (simp add: b k_msgq_put_def)
qed

section \<open>Repeating an input of an adapter\<close>

text \<open>
  C4, as amended. For the power adapter and the battery adapter, with every input, and for
  the connectivity adapter, with every resolved value but \<open>PATTERN_CONNECTED\<close>, the first
  call puts at most one message on the queue and a second call with the same input changes
  nothing. (For \<open>PATTERN_CONNECTED\<close> the last-known pattern returns to
  \<open>PATTERN_UNKNOWN\<close>, and every evaluation puts the pair of messages again.)
\<close>

theorem adapters_idempotent:
  "indicate_usb_powered powered (indicate_usb_powered powered st) = indicate_usb_powered powered st
   \<and> length (led_msgq (indicate_usb_powered powered st)) \<le> Suc (length (led_msgq st))
   \<and> set_battery_level battery_level (set_battery_level battery_level st)
       = set_battery_level battery_level st
   \<and> length (led_msgq (set_battery_level battery_level st)) \<le> Suc (length (led_msgq st))
   \<and> (next_connectivity_pattern b e \<noteq> Some PATTERN_CONNECTED \<longrightarrow>
        Option.bind (indicate_connectivity_internal b e st) (indicate_connectivity_internal b e)
          = indicate_connectivity_internal b e st
        \<and> (\<forall>st1. indicate_connectivity_internal b e st = Some st1 \<longrightarrow>
              length (led_msgq st1) \<le> Suc (length (led_msgq st))))"
proof -
  have u: "indicate_usb_powered powered (indicate_usb_powered powered st)
      = indicate_usb_powered powered st"
    by (simp add: indicate_usb_powered_def)
  have ul: "length (led_msgq (indicate_usb_powered powered st)) \<le> Suc (length (led_msgq st))"
    by (simp add: indicate_usb_powered_def length_k_msgq_put)
  have s: "set_battery_level battery_level (set_battery_level battery_level st)
      = set_battery_level battery_level st"
    by (simp add: set_battery_level_def Let_def)
  have sl: "length (led_msgq (set_battery_level battery_level st)) \<le> Suc (length (led_msgq st))"
    by (simp add: set_battery_level_def Let_def length_k_msgq_put)
  have c: "Option.bind (indicate_connectivity_internal b e st) (indicate_connectivity_internal b e)
          = indicate_connectivity_internal b e st
        \<and> (\<forall>st1. indicate_connectivity_internal b e st = Some st1 \<longrightarrow>
              length (led_msgq st1) \<le> Suc (length (led_msgq st)))"
    if "next_connectivity_pattern b e \<noteq> Some PATTERN_CONNECTED"
  proof (cases "next_connectivity_pattern b e")
    case None
    then show ?thesis
      by (simp add: indicate_connectivity_internal_def)
  next
    case (Some n)
    with that have "n \<noteq> PATTERN_CONNECTED"
      by simp
    with Some show ?thesis
      by (auto simp: indicate_connectivity_internal_def connectivity_swap_idem
          length_connectivity_swap)
  qed
  from u ul s sl c show ?thesis
    by blast
qed

theorem adapters_idempotent_witness:
  "next_connectivity_pattern example_build example_advertising \<noteq> Some PATTERN_CONNECTED
   \<and> indicate_connectivity_internal example_build example_advertising boot =
       Some (boot\<lparr>led_msgq := [MESSAGE_PATTERN_SWAP PATTERN_UNKNOWN PATTERN_ADVERTISING],
                  current_connectivity_pattern := PATTERN_ADVERTISING\<rparr>)
   \<and> Option.bind (indicate_connectivity_internal example_build example_advertising boot)
        (indicate_connectivity_internal example_build example_advertising) =
       Some (boot\<lparr>led_msgq := [MESSAGE_PATTERN_SWAP PATTERN_UNKNOWN PATTERN_ADVERTISING],
                  current_connectivity_pattern := PATTERN_ADVERTISING\<rparr>)"
proof -
  have n: "next_connectivity_pattern example_build example_advertising = Some PATTERN_ADVERTISING"
    by (simp add: next_connectivity_pattern_def example_build_def example_advertising_def)
  have i: "indicate_connectivity_internal example_build example_advertising boot =
       Some (boot\<lparr>led_msgq := [MESSAGE_PATTERN_SWAP PATTERN_UNKNOWN PATTERN_ADVERTISING],
                  current_connectivity_pattern := PATTERN_ADVERTISING\<rparr>)"
    by (simp add: indicate_connectivity_internal_def n connectivity_swap_def boot_def
        k_msgq_put_def)
  from adapters_idempotent[of True boot 0 example_build example_advertising] n i
  show ?thesis
    by simp
qed

text \<open>
  The claim as first stated fails for the connectivity adapter: from boot, a first
  evaluation that resolves to connected puts two messages on the queue, and a second one
  with the same answers puts two more.
\<close>

theorem adapters_idempotent_counterexample:
  "map_option led_msgq (indicate_connectivity_internal example_build example_connected boot)
     = Some [MESSAGE_PATTERN_SWAP PATTERN_UNKNOWN PATTERN_CONNECTED,
             MESSAGE_PATTERN_SWAP PATTERN_CONNECTED PATTERN_UNKNOWN]
   \<and> map_option led_msgq
        (Option.bind (indicate_connectivity_internal example_build example_connected boot)
           (indicate_connectivity_internal example_build example_connected))
     = Some [MESSAGE_PATTERN_SWAP PATTERN_UNKNOWN PATTERN_CONNECTED,
             MESSAGE_PATTERN_SWAP PATTERN_CONNECTED PATTERN_UNKNOWN,
             MESSAGE_PATTERN_SWAP PATTERN_UNKNOWN PATTERN_CONNECTED,
             MESSAGE_PATTERN_SWAP PATTERN_CONNECTED PATTERN_UNKNOWN]"
  by (simp add: indicate_connectivity_internal_def next_connectivity_pattern_def
      example_build_def example_connected_def connectivity_swap_def boot_def k_msgq_put_def)

section \<open>The battery adapter\<close>

text \<open>
  C5. Level 0 leaves the state as it is: no message, the same last-known pattern. Any other
  level is mapped to its tier (up to 10, up to 20, up to 30, none above), and the swap from
  the last-known pattern to the tier is put on the queue exactly when the two differ, the
  tier becoming the last-known pattern. From boot, the levels 35, 25, 15, 5 put exactly the
  swaps none to tier 3, tier 3 to tier 2, tier 2 to tier 1.
\<close>

theorem battery_tier_mapping:
  "set_battery_level 0 st = st
   \<and> (b \<noteq> 0 \<longrightarrow>
        set_battery_level b st =
          (if battery_tier (unat b) = current_battery_pattern st then st
           else st\<lparr>led_msgq :=
                     k_msgq_put
                       (MESSAGE_PATTERN_SWAP (current_battery_pattern st) (battery_tier (unat b)))
                       (led_msgq st),
                   current_battery_pattern := battery_tier (unat b)\<rparr>))
   \<and> led_msgq (set_battery_level 5 (set_battery_level 15
                  (set_battery_level 25 (set_battery_level 35 boot))))
       = [MESSAGE_PATTERN_SWAP PATTERN_UNKNOWN PATTERN_BATT_30,
          MESSAGE_PATTERN_SWAP PATTERN_BATT_30 PATTERN_BATT_20,
          MESSAGE_PATTERN_SWAP PATTERN_BATT_20 PATTERN_BATT_10]"
proof -
  have z: "set_battery_level 0 st = st"
    by (simp add: set_battery_level_def)
  have n: "set_battery_level b st =
          (if battery_tier (unat b) = current_battery_pattern st then st
           else st\<lparr>led_msgq :=
                     k_msgq_put
                       (MESSAGE_PATTERN_SWAP (current_battery_pattern st) (battery_tier (unat b)))
                       (led_msgq st),
                   current_battery_pattern := battery_tier (unat b)\<rparr>)" if "b \<noteq> 0"
    using that unfolding set_battery_level_def next_battery_pattern_tier
    by (auto simp: Let_def)
  have s: "led_msgq (set_battery_level 5 (set_battery_level 15
                  (set_battery_level 25 (set_battery_level 35 boot))))
       = [MESSAGE_PATTERN_SWAP PATTERN_UNKNOWN PATTERN_BATT_30,
          MESSAGE_PATTERN_SWAP PATTERN_BATT_30 PATTERN_BATT_20,
          MESSAGE_PATTERN_SWAP PATTERN_BATT_20 PATTERN_BATT_10]"
    by (simp add: set_battery_level_def boot_def k_msgq_put_def)
  from z n s show ?thesis
    by blast
qed

theorem battery_tier_mapping_witness:
  "(25 :: 8 word) \<noteq> 0
   \<and> set_battery_level 25 boot =
       boot\<lparr>led_msgq := [MESSAGE_PATTERN_SWAP PATTERN_UNKNOWN PATTERN_BATT_30],
            current_battery_pattern := PATTERN_BATT_30\<rparr>
   \<and> set_battery_level 0 boot = boot"
  using battery_tier_mapping[of boot 25]
  by (simp add: battery_tier_def boot_def k_msgq_put_def)

section \<open>Events before the end of the initialisation\<close>

text \<open>
  C9. While \<open>initialized\<close> is false, each of the three listener callbacks returns with
  the state as it was: no message, no change of a last-known value, no scheduled work. The
  initialisation thread calls the adapters itself, without looking at the flag, and sets
  the flag at its end.
\<close>

theorem boot_suppression:
  assumes "\<not> initialized st"
  shows "led_charge_listener_cb powered st = st
         \<and> led_output_listener_cb st = st
         \<and> led_battery_listener_cb state_of_charge st = st
         \<and> led_init_thread b powered soc st =
             (if CONFIG_ZMK_BATTERY_REPORTING b
              then indicate_battery soc (indicate_connectivity (indicate_usb_powered powered st))
              else indicate_connectivity (indicate_usb_powered powered st))
             \<lparr>initialized := True\<rparr>"
  using assms
  by (simp add: led_charge_listener_cb_def led_output_listener_cb_def
      led_battery_listener_cb_def led_init_thread_def Let_def)

theorem boot_suppression_witness:
  "\<not> initialized boot
   \<and> led_charge_listener_cb True boot = boot
   \<and> led_output_listener_cb boot = boot
   \<and> led_battery_listener_cb 25 boot = boot
   \<and> led_init_thread example_build True (\<lambda>k. if k < 3 then 0 else 25) boot =
       boot\<lparr>initialized := True,
            led_msgq := [MESSAGE_COLOR_SET COLOR_ON,
                         MESSAGE_PATTERN_SWAP PATTERN_UNKNOWN PATTERN_BATT_30],
            usb_current_powered := True, indicate_connectivity_work := True,
            current_battery_pattern := PATTERN_BATT_30\<rparr>"
proof -
  have i: "\<not> initialized boot"
    by (simp add: boot_def)
  have p: "battery_poll (\<lambda>k. if k < 3 then 0 else 25) 0 0 = 25"
    by simp
  from boot_suppression[OF i, of True 25 example_build "\<lambda>k. if k < 3 then 0 else 25"] i
  show ?thesis
    by (simp add: example_build_def indicate_battery_def p)
       (simp add: boot_def set_battery_level_def indicate_connectivity_def
          indicate_usb_powered_def k_msgq_put_def)
qed

section \<open>The result of the non-blocking receive\<close>

text \<open>
  C2. The claim is that every iteration processes a message taken from the queue, so that
  the branch for an unknown message type is never reached. The loop does not look at the
  result of \<open>k_msgq_get\<close>: after the swap to the advertising pattern has been processed,
  the queue is empty and the bitmask is not, the receive returns at once without a message,
  and the switch runs on what the buffer holds. With bytes of no message type it reaches
  the unknown-type branch; with the bytes of a colour message it changes the base colour,
  although no such message was put on the queue.
\<close>

theorem unchecked_k_msgq_get:
  "map_option led_msgq
     (led_process_iteration example_config Msg_other
        (boot\<lparr>led_msgq := [MESSAGE_PATTERN_SWAP PATTERN_UNKNOWN PATTERN_ADVERTISING]\<rparr>))
     = Some []
   \<and> map_option warnings
       (Option.bind
          (led_process_iteration example_config Msg_other
             (boot\<lparr>led_msgq := [MESSAGE_PATTERN_SWAP PATTERN_UNKNOWN PATTERN_ADVERTISING]\<rparr>))
          (led_process_iteration example_config Msg_other))
     = Some [Unknown_message_type]
   \<and> map_option led_default_color
       (Option.bind
          (led_process_iteration example_config Msg_other
             (boot\<lparr>led_msgq := [MESSAGE_PATTERN_SWAP PATTERN_UNKNOWN PATTERN_ADVERTISING]\<rparr>))
          (led_process_iteration example_config (Msg (MESSAGE_COLOR_SET COLOR_ON))))
     = Some COLOR_ON"
proof -
  let ?st = "boot\<lparr>led_msgq := [MESSAGE_PATTERN_SWAP PATTERN_UNKNOWN PATTERN_ADVERTISING]\<rparr>"
  let ?st1 = "display_pattern example_config 3 (boot\<lparr>led_current_patterns := 8\<rparr>)"
  have v: "unat (3 :: 8 word) < length (PATTERNS example_config)"
    by (simp add: length_PATTERNS)
  have h: "highest_priority_pattern 8 = 3"
    by (simp add: highest_priority_pattern_def)
  have i1: "led_process_iteration example_config Msg_other ?st = Some ?st1"
    by (simp add: led_process_iteration_def boot_def process_message_def pattern_mask_def h)
  have q: "led_msgq ?st1 = []"
    by (simp add: display_pattern_frame boot_def)
  have c: "led_current_patterns ?st1 = 8"
    by (simp add: display_pattern_frame)
  have w: "warnings ?st1 = []"
    using v by (simp add: display_pattern_frame boot_def)
  have i2: "led_process_iteration example_config Msg_other ?st1 =
      Some (display_pattern example_config 3
              (?st1\<lparr>led_msgq := [], warnings := [Unknown_message_type]\<rparr>))"
    by (simp add: led_process_iteration_def q c w process_message_def h)
  have i3: "led_process_iteration example_config (Msg (MESSAGE_COLOR_SET COLOR_ON)) ?st1 =
      Some (display_pattern example_config 3
              (?st1\<lparr>led_msgq := [], led_default_color := COLOR_ON\<rparr>))"
    by (simp add: led_process_iteration_def q c w process_message_def h)
  show ?thesis
    using v by (simp add: i1 i2 i3 display_pattern_frame) (simp add: boot_def)
qed

end
